theory Spec2Isabelle
  imports Main
begin

section \<open>The documentation generator \<^verbatim>\<open>generate_doc.py\<close>\<close>

text \<open>
  The script reads a fixed list of Go source files and writes them into one Word document
  through the python-docx library. The model has three layers: the part of the library's
  document object that the script touches, the file system the script reads, and the two
  functions of the script itself, \<^verbatim>\<open>add_code_paragraph\<close> and
  \<^verbatim>\<open>generate_document\<close>. Python mutates the document in place; here every
  operation takes the document and returns the new one. A Python exception is a value
  \<open>Inl e\<close>; the script has no handler, so an exception ends the run.
\<close>

subsection \<open>Exceptions\<close>

datatype py_error =
    ValueError
  | KeyError
  | FileNotFoundError
  | IsADirectoryError
  | PermissionError
  | UnicodeDecodeError

subsection \<open>Documents: paragraphs, runs and styles\<close>

datatype WD_STYLE_TYPE = PARAGRAPH | CHARACTER | TABLE | LIST

datatype WD_BREAK = LINE | PAGE | COLUMN

text \<open>
  A font is the character formatting of a style; an attribute that was never set is
  \<open>None\<close>. Sizes are lengths in English Metric Units, as the library stores them.
\<close>

record font =
  f_name :: "string option"
  f_size :: "nat option"
  f_rgb :: "(nat \<times> nat \<times> nat) option"

text \<open>
  A style has a name, a type, its font and the shading of its paragraph properties
  (the fill colour of a \<^verbatim>\<open>w:shd\<close> element under the style's \<^verbatim>\<open>w:pPr\<close>).
\<close>

record style =
  s_name :: string
  s_type :: WD_STYLE_TYPE
  s_font :: font
  s_shd :: "string option"

datatype run_content = Text string | Break WD_BREAK

type_synonym run = "run_content list"

text \<open>
  A paragraph has the name of the style assigned to it (\<open>None\<close>: the document's
  default), its runs, and the fills of the \<^verbatim>\<open>w:shd\<close> elements of its own
  paragraph properties, in document order.
\<close>

record para =
  p_style :: "string option"
  p_runs :: "run list"
  p_shd :: "string list"

record document =
  body :: "para list"
  styles :: "style list"

definition Pt :: "nat \<Rightarrow> nat" where
  "Pt n = n * 12700"

definition RGBColor :: "nat \<Rightarrow> nat \<Rightarrow> nat \<Rightarrow> nat \<times> nat \<times> nat" where
  "RGBColor r g b = (r, g, b)"

definition no_font :: font where
  "no_font = \<lparr>f_name = None, f_size = None, f_rgb = None\<rparr>"

subsection \<open>The default template\<close>

text \<open>
  \<^verbatim>\<open>Document()\<close> opens the library's default template: a body without paragraphs and
  the built-in styles. The paragraph and character styles are listed by name, as the
  library's documentation of the template lists them; the table styles, none of which
  is named \<^verbatim>\<open>Code\<close>, and the formatting of the built-in styles are left out, since the
  script touches neither. All that the proofs use of the list is that \<^verbatim>\<open>Title\<close> and
  \<^verbatim>\<open>Heading 1\<close> are paragraph styles and that no style is named \<^verbatim>\<open>Code\<close>.
\<close>

definition builtin :: "WD_STYLE_TYPE \<Rightarrow> string \<Rightarrow> style" where
  "builtin t n = \<lparr>s_name = n, s_type = t, s_font = no_font, s_shd = None\<rparr>"

definition default_paragraph_styles :: "string list" where
  "default_paragraph_styles =
     [''Normal'', ''Body Text'', ''Body Text 2'', ''Body Text 3'', ''Caption'',
      ''Heading 1'', ''Heading 2'', ''Heading 3'', ''Heading 4'', ''Heading 5'',
      ''Heading 6'', ''Heading 7'', ''Heading 8'', ''Heading 9'',
      ''Intense Quote'', ''List'', ''List 2'', ''List 3'',
      ''List Bullet'', ''List Bullet 2'', ''List Bullet 3'',
      ''List Continue'', ''List Continue 2'', ''List Continue 3'',
      ''List Number'', ''List Number 2'', ''List Number 3'',
      ''List Paragraph'', ''Macro Text'', ''No Spacing'', ''Quote'', ''Subtitle'',
      ''TOCHeading'', ''Title'']"

definition default_character_styles :: "string list" where
  "default_character_styles =
     [''Body Text Char'', ''Body Text 2 Char'', ''Body Text 3 Char'', ''Book Title'',
      ''Default Paragraph Font'', ''Emphasis'',
      ''Heading 1 Char'', ''Heading 2 Char'', ''Heading 3 Char'', ''Heading 4 Char'',
      ''Heading 5 Char'', ''Heading 6 Char'', ''Heading 7 Char'', ''Heading 8 Char'',
      ''Heading 9 Char'', ''Intense Emphasis'', ''Intense Quote Char'',
      ''Intense Reference'', ''Macro Text Char'', ''Quote Char'', ''Strong'',
      ''Subtitle Char'', ''Subtle Emphasis'', ''Subtle Reference'', ''Title Char'']"

definition default_styles :: "style list" where
  "default_styles =
     map (builtin PARAGRAPH) default_paragraph_styles @
     map (builtin CHARACTER) default_character_styles"

definition Document :: document where
  "Document = \<lparr>body = [], styles = default_styles\<rparr>"

subsection \<open>Library operations on styles\<close>

text \<open>\<^verbatim>\<open>name in styles\<close>: some style of the document has this name.\<close>

definition styles_contains :: "style list \<Rightarrow> string \<Rightarrow> bool" where
  "styles_contains ss n = (n \<in> set (map s_name ss))"

text \<open>
  \<^verbatim>\<open>styles[name]\<close>: the first style of that name, \<^verbatim>\<open>KeyError\<close> without one. (The
  library's deprecated lookup by style id is left out: the model has style names only.)
\<close>

definition styles_getitem :: "style list \<Rightarrow> string \<Rightarrow> py_error + style" where
  "styles_getitem ss n =
     (case find (\<lambda>s. s_name s = n) ss of None \<Rightarrow> Inl KeyError | Some s \<Rightarrow> Inr s)"

text \<open>
  \<^verbatim>\<open>styles.add_style(name, style_type)\<close> refuses a name the document already has;
  otherwise it appends a style without formatting and returns it. The returned style
  object is a reference into the document: here it is the index of the new style.
\<close>

definition add_style :: "document \<Rightarrow> string \<Rightarrow> WD_STYLE_TYPE \<Rightarrow> py_error + document \<times> nat" where
  "add_style d n t =
     (if styles_contains (styles d) n then Inl ValueError
      else Inr (d\<lparr>styles := styles d @ [\<lparr>s_name = n, s_type = t, s_font = no_font, s_shd = None\<rparr>]\<rparr>,
                length (styles d)))"

definition upd_font :: "nat \<Rightarrow> (font \<Rightarrow> font) \<Rightarrow> document \<Rightarrow> document" where
  "upd_font i f d =
     (if i < length (styles d)
      then d\<lparr>styles := (styles d)[i := (styles d ! i)\<lparr>s_font := f (s_font (styles d ! i))\<rparr>]\<rparr>
      else d)"

definition set_font_name :: "nat \<Rightarrow> string \<Rightarrow> document \<Rightarrow> document" where
  "set_font_name i v = upd_font i (\<lambda>f. f\<lparr>f_name := Some v\<rparr>)"

definition set_font_size :: "nat \<Rightarrow> nat \<Rightarrow> document \<Rightarrow> document" where
  "set_font_size i v = upd_font i (\<lambda>f. f\<lparr>f_size := Some v\<rparr>)"

definition set_font_rgb :: "nat \<Rightarrow> nat \<times> nat \<times> nat \<Rightarrow> document \<Rightarrow> document" where
  "set_font_rgb i v = upd_font i (\<lambda>f. f\<lparr>f_rgb := Some v\<rparr>)"

subsection \<open>Library operations on paragraphs\<close>

text \<open>
  The XML layer refuses text with a NUL byte or a control character
  (\<^verbatim>\<open>ValueError\<close>: all strings must be XML compatible). Tabs, line feeds and
  carriage returns never reach it as text: the library turns them into tab and break
  elements of the run, which read back as the same text.
\<close>

definition xml_compatible :: "string \<Rightarrow> bool" where
  "xml_compatible s =
     list_all (\<lambda>c. 32 \<le> (of_char c :: nat) \<or> c = CHR 0x09 \<or> c = CHR 0x0A \<or> c = CHR 0x0D) s"

definition new_paragraph :: para where
  "new_paragraph = \<lparr>p_style = None, p_runs = [], p_shd = []\<rparr>"

text \<open>
  \<^verbatim>\<open>paragraph.add_run(text)\<close> appends a run; the text is set only when it is not
  empty.
\<close>

definition paragraph_add_run :: "para \<Rightarrow> string \<Rightarrow> py_error + para" where
  "paragraph_add_run p s =
     (if s = [] then Inr (p\<lparr>p_runs := p_runs p @ [[]]\<rparr>)
      else if xml_compatible s then Inr (p\<lparr>p_runs := p_runs p @ [[Text s]]\<rparr>)
      else Inl ValueError)"

text \<open>
  \<^verbatim>\<open>paragraph.style = name\<close> looks the name up in the document's styles
  (\<^verbatim>\<open>KeyError\<close> without such a style) and refuses a style that is not a paragraph
  style (\<^verbatim>\<open>ValueError\<close>). The paragraph then reads back that style: \<open>p_style\<close> is
  the name that \<^verbatim>\<open>paragraph.style.name\<close> gives.
\<close>

definition paragraph_set_style :: "style list \<Rightarrow> para \<Rightarrow> string \<Rightarrow> py_error + para" where
  "paragraph_set_style ss p n =
     (case styles_getitem ss n of
        Inl e \<Rightarrow> Inl e
      | Inr s \<Rightarrow> if s_type s \<noteq> PARAGRAPH then Inl ValueError else Inr (p\<lparr>p_style := Some n\<rparr>))"

text \<open>
  \<^verbatim>\<open>document.add_paragraph(text='', style=None)\<close> appends a paragraph to the body,
  with one run when the text is not empty and with the style when one is given. It
  returns the paragraph, a reference into the document: here its index in the body.
\<close>

definition add_paragraph :: "document \<Rightarrow> string \<Rightarrow> string option \<Rightarrow> py_error + document \<times> nat" where
  "add_paragraph d s sty =
     (case (if s = [] then Inr new_paragraph else paragraph_add_run new_paragraph s) of
        Inl e \<Rightarrow> Inl e
      | Inr p1 \<Rightarrow>
          (case (case sty of None \<Rightarrow> Inr p1 | Some n \<Rightarrow> paragraph_set_style (styles d) p1 n) of
             Inl e \<Rightarrow> Inl e
           | Inr p2 \<Rightarrow> Inr (d\<lparr>body := body d @ [p2]\<rparr>, length (body d))))"

definition upd_paragraph :: "nat \<Rightarrow> (para \<Rightarrow> py_error + para) \<Rightarrow> document \<Rightarrow> py_error + document" where
  "upd_paragraph i f d =
     (if i < length (body d)
      then (case f (body d ! i) of Inl e \<Rightarrow> Inl e | Inr p \<Rightarrow> Inr (d\<lparr>body := (body d)[i := p]\<rparr>))
      else Inr d)"

text \<open>\<^verbatim>\<open>"%d" % n\<close>: the decimal digits of a natural number.\<close>

fun str_nat :: "nat \<Rightarrow> string" where
  "str_nat n =
     (if n < 10 then [''0123456789'' ! n]
      else str_nat (n div 10) @ [''0123456789'' ! (n mod 10)])"

declare str_nat.simps [simp del]

text \<open>\<^verbatim>\<open>"Title" if level == 0 else "Heading %d" % level\<close>.\<close>

definition heading_style :: "nat \<Rightarrow> string" where
  "heading_style level = (if level = 0 then ''Title'' else ''Heading '' @ str_nat level)"

text \<open>
  \<^verbatim>\<open>document.add_heading(text, level)\<close>: a paragraph with the text and the heading
  style of the level; \<^verbatim>\<open>ValueError\<close> for a level outside 0 to 9.
\<close>

definition add_heading :: "document \<Rightarrow> string \<Rightarrow> nat \<Rightarrow> py_error + document" where
  "add_heading d s level =
     (if 9 < level then Inl ValueError
      else (case add_paragraph d s (Some (heading_style level)) of
              Inl e \<Rightarrow> Inl e
            | Inr (d', _) \<Rightarrow> Inr d'))"

text \<open>
  \<^verbatim>\<open>document.add_page_break()\<close>: a new paragraph whose only run holds a page break.
\<close>

definition add_page_break :: "document \<Rightarrow> document" where
  "add_page_break d = d\<lparr>body := body d @ [new_paragraph\<lparr>p_runs := [[Break PAGE]]\<rparr>]\<rparr>"

text \<open>\<^verbatim>\<open>document.paragraphs\<close>: the paragraphs of the body, in order.\<close>

definition paragraphs :: "document \<Rightarrow> para list" where
  "paragraphs d = body d"

text \<open>
  The paragraph and style objects the script holds are references; an index that the
  operations above returned is always in range, so the \<open>else\<close> branches of
  \<open>upd_font\<close> and \<open>upd_paragraph\<close> are never taken.
\<close>

definition set_paragraph_style :: "nat \<Rightarrow> string \<Rightarrow> document \<Rightarrow> py_error + document" where
  "set_paragraph_style i n d = upd_paragraph i (\<lambda>p. paragraph_set_style (styles d) p n) d"

definition add_run :: "nat \<Rightarrow> string \<Rightarrow> document \<Rightarrow> py_error + document" where
  "add_run i s d = upd_paragraph i (\<lambda>p. paragraph_add_run p s) d"

text \<open>
  \<^verbatim>\<open>pPr = p.get_or_add_pPr(); shd = OxmlElement('w:shd'); shd.set(qn('w:fill'), fill);
  pPr.append(shd)\<close>: one more shading element at the end of the paragraph's own properties.
\<close>

definition append_shd :: "nat \<Rightarrow> string \<Rightarrow> document \<Rightarrow> document" where
  "append_shd i fill d =
     (if i < length (body d)
      then d\<lparr>body := (body d)[i := (body d ! i)\<lparr>p_shd := p_shd (body d ! i) @ [fill]\<rparr>]\<rparr>
      else d)"

subsection \<open>The file system and the process's effects\<close>

text \<open>
  What the script can observe of a path: nothing there, a directory, a regular file
  with the text that \<^verbatim>\<open>open(path, 'r', encoding='utf-8').read()\<close> returns, or a
  regular file whose opening or decoding raises.
\<close>

datatype fs_entry = Absent | Directory | Regular string | Unreadable py_error

type_synonym filesystem = "string \<Rightarrow> fs_entry"

definition isfile :: "filesystem \<Rightarrow> string \<Rightarrow> bool" where
  "isfile fs p = (case fs p of Regular _ \<Rightarrow> True | Unreadable _ \<Rightarrow> True | _ \<Rightarrow> False)"

definition read_text :: "filesystem \<Rightarrow> string \<Rightarrow> py_error + string" where
  "read_text fs p =
     (case fs p of
        Regular s \<Rightarrow> Inr s
      | Unreadable e \<Rightarrow> Inl e
      | Absent \<Rightarrow> Inl FileNotFoundError
      | Directory \<Rightarrow> Inl IsADirectoryError)"

text \<open>
  The effects of a run: the lines printed and the documents written to disk, each in
  order. \<^verbatim>\<open>document.save(path)\<close> is the write itself: the output path is taken to be
  writable, so saving raises nothing.
\<close>

record world =
  console :: "string list"
  written :: "(string \<times> document) list"

definition print :: "string \<Rightarrow> world \<Rightarrow> world" where
  "print s w = w\<lparr>console := console w @ [s]\<rparr>"

definition save :: "document \<Rightarrow> string \<Rightarrow> world \<Rightarrow> world" where
  "save d path w = w\<lparr>written := written w @ [(path, d)]\<rparr>"

subsection \<open>The script\<close>

definition GO_FILES :: "string list" where
  "GO_FILES = [''blueprint.go'', ''neuron.go'', ''eval.go'', ''utils.go'']"

definition OUTPUT_DOC :: string where
  "OUTPUT_DOC = ''Go_Code_Documentation.docx''"

text \<open>
  \<^verbatim>\<open>add_code_paragraph(document, code)\<close>, statement by statement: the new paragraph,
  the \<^verbatim>\<open>Code\<close> style (created with its font when no style has that name, looked up
  otherwise), the style assigned to the paragraph, the run with the code, the shading.
\<close>

definition add_code_paragraph :: "document \<Rightarrow> string \<Rightarrow> py_error + document" where
  "add_code_paragraph document code =
     (case add_paragraph document [] None of
        Inl e \<Rightarrow> Inl e
      | Inr (d1, code_paragraph) \<Rightarrow>
     (case (if \<not> styles_contains (styles d1) ''Code''
            then (case add_style d1 ''Code'' PARAGRAPH of
                    Inl e \<Rightarrow> Inl e
                  | Inr (d2, code_style) \<Rightarrow>
                      Inr (set_font_rgb code_style (RGBColor 0 0 0)
                            (set_font_size code_style (Pt 10)
                              (set_font_name code_style ''Courier New'' d2))))
            else (case styles_getitem (styles d1) ''Code'' of
                    Inl e \<Rightarrow> Inl e
                  | Inr code_style \<Rightarrow> Inr d1)) of
        Inl e \<Rightarrow> Inl e
      | Inr d3 \<Rightarrow>
     (case set_paragraph_style code_paragraph ''Code'' d3 of
        Inl e \<Rightarrow> Inl e
      | Inr d4 \<Rightarrow>
     (case add_run code_paragraph code d4 of
        Inl e \<Rightarrow> Inl e
      | Inr d5 \<Rightarrow> Inr (append_shd code_paragraph ''D3D3D3'' d5)))))"

definition warning :: "string \<Rightarrow> string" where
  "warning go_file = ''Warning: '' @ go_file @ '' does not exist and will be skipped.''"

definition completion :: string where
  "completion = ''Documentation successfully generated and saved as '' @ OUTPUT_DOC"

text \<open>
  The body of the \<^verbatim>\<open>for\<close> loop for one file name: the document after it, or the
  exception that ends the run, and the effects so far.
\<close>

definition loop_body :: "filesystem \<Rightarrow> string \<Rightarrow> document \<Rightarrow> world \<Rightarrow> (py_error + document) \<times> world" where
  "loop_body fs go_file document w =
     (if \<not> isfile fs go_file then (Inr document, print (warning go_file) w)
      else
        (let d1 = (if paragraphs document \<noteq> [] then add_page_break document else document) in
         case add_heading d1 go_file 1 of
           Inl e \<Rightarrow> (Inl e, w)
         | Inr d2 \<Rightarrow>
        (case read_text fs go_file of
           Inl e \<Rightarrow> (Inl e, w)
         | Inr code \<Rightarrow>
        (case add_code_paragraph d2 code of
           Inl e \<Rightarrow> (Inl e, w)
         | Inr d3 \<Rightarrow> (Inr d3, w)))))"

fun for_loop :: "filesystem \<Rightarrow> string list \<Rightarrow> document \<Rightarrow> world \<Rightarrow> (py_error + document) \<times> world" where
  "for_loop fs [] document w = (Inr document, w)"
| "for_loop fs (go_file # rest) document w =
     (case loop_body fs go_file document w of
        (Inl e, w') \<Rightarrow> (Inl e, w')
      | (Inr document', w') \<Rightarrow> for_loop fs rest document' w')"

text \<open>
  \<^verbatim>\<open>generate_document()\<close>: the title, the loop over \<^verbatim>\<open>GO_FILES\<close>, the save and the
  completion line. The result is \<open>Inr ()\<close> for a normal return and \<open>Inl e\<close> for an
  uncaught exception, with the effects of the run.
\<close>

definition generate_document :: "filesystem \<Rightarrow> (py_error + unit) \<times> world" where
  "generate_document fs =
     (let w0 = \<lparr>console = [], written = []\<rparr> in
      case add_heading Document ''Go Code Documentation'' 0 of
        Inl e \<Rightarrow> (Inl e, w0)
      | Inr document \<Rightarrow>
     (case for_loop fs GO_FILES document w0 of
        (Inl e, w1) \<Rightarrow> (Inl e, w1)
      | (Inr document', w1) \<Rightarrow> (Inr (), print completion (save document' OUTPUT_DOC w1))))"

subsection \<open>Reading a document\<close>

definition run_text :: "run \<Rightarrow> string" where
  "run_text r = concat (map (\<lambda>c. case c of Text s \<Rightarrow> s | Break _ \<Rightarrow> []) r)"

definition p_text :: "para \<Rightarrow> string" where
  "p_text p = concat (map run_text (p_runs p))"

definition is_heading :: "nat \<Rightarrow> para \<Rightarrow> bool" where
  "is_heading level p = (p_style p = Some (heading_style level))"

definition headings :: "nat \<Rightarrow> document \<Rightarrow> string list" where
  "headings level d = map p_text (filter (is_heading level) (body d))"

definition has_page_break :: "para \<Rightarrow> bool" where
  "has_page_break p = list_ex (\<lambda>r. Break PAGE \<in> set r) (p_runs p)"

definition page_breaks :: "document \<Rightarrow> nat" where
  "page_breaks d = length (filter has_page_break (body d))"

definition is_code_block :: "para \<Rightarrow> bool" where
  "is_code_block p = (p_style p = Some ''Code'')"

definition code_blocks :: "document \<Rightarrow> para list" where
  "code_blocks d = filter is_code_block (body d)"

subsection \<open>What a run is expected to build\<close>

text \<open>
  The paragraphs and the style that the two functions are shown to produce: the style
  that the Formatter registers, a code block, a heading, the paragraph of a page break,
  the three paragraphs of one file, and the document and console lines after the loop
  over a list of names.
\<close>

definition code_style :: style where
  "code_style =
     \<lparr>s_name = ''Code'', s_type = PARAGRAPH,
      s_font = \<lparr>f_name = Some ''Courier New'', f_size = Some (Pt 10), f_rgb = Some (RGBColor 0 0 0)\<rparr>,
      s_shd = None\<rparr>"

definition code_block :: "string \<Rightarrow> para" where
  "code_block code =
     \<lparr>p_style = Some ''Code'', p_runs = [if code = [] then [] else [Text code]], p_shd = [''D3D3D3'']\<rparr>"

definition heading_paragraph :: "nat \<Rightarrow> string \<Rightarrow> para" where
  "heading_paragraph level s =
     \<lparr>p_style = Some (heading_style level), p_runs = (if s = [] then [] else [[Text s]]), p_shd = []\<rparr>"

definition page_break_paragraph :: para where
  "page_break_paragraph = \<lparr>p_style = None, p_runs = [[Break PAGE]], p_shd = []\<rparr>"

definition template_styles :: "document \<Rightarrow> bool" where
  "template_styles d = (styles d = default_styles \<or> styles d = default_styles @ [code_style])"

definition no_fatal :: "filesystem \<Rightarrow> string \<Rightarrow> bool" where
  "no_fatal fs p = (case fs p of Regular s \<Rightarrow> xml_compatible s | Unreadable e \<Rightarrow> False | _ \<Rightarrow> True)"

definition the_code :: "filesystem \<Rightarrow> string \<Rightarrow> string" where
  "the_code fs p = (case fs p of Regular s \<Rightarrow> s | _ \<Rightarrow> [])"

definition file_section :: "filesystem \<Rightarrow> string \<Rightarrow> para list" where
  "file_section fs f = [page_break_paragraph, heading_paragraph 1 f, code_block (the_code fs f)]"

definition loop_document :: "filesystem \<Rightarrow> string list \<Rightarrow> document \<Rightarrow> document" where
  "loop_document fs names d =
     (if filter (isfile fs) names = [] then d
      else d\<lparr>body := body d @ concat (map (file_section fs) (filter (isfile fs) names)),
             styles := default_styles @ [code_style]\<rparr>)"

definition loop_console :: "filesystem \<Rightarrow> string list \<Rightarrow> string list" where
  "loop_console fs names = map warning (filter (\<lambda>f. \<not> isfile fs f) names)"

definition title_document :: document where
  "title_document = \<lparr>body = [heading_paragraph 0 ''Go Code Documentation''], styles = default_styles\<rparr>"

subsection \<open>Sample file systems\<close>

text \<open>Only the first file of the list is on disk.\<close>

definition blueprint_only :: filesystem where
  "blueprint_only = (\<lambda>p. if p = ''blueprint.go'' then Regular ''package main'' else Absent)"

definition blueprint_only_document :: document where
  "blueprint_only_document =
     \<lparr>body = [heading_paragraph 0 ''Go Code Documentation'', page_break_paragraph,
              heading_paragraph 1 ''blueprint.go'', code_block ''package main''],
      styles = default_styles @ [code_style]\<rparr>"


text \<open>Two files of the list are on disk, one is absent and one name is a directory.\<close>

definition mixed_files :: filesystem where
  "mixed_files =
     (\<lambda>p. if p = ''blueprint.go'' then Regular ''package main''
          else if p = ''eval.go'' then Regular ''package eval''
          else if p = ''utils.go'' then Directory
          else Absent)"

text \<open>The first file is readable, the second is not valid UTF-8.\<close>

definition broken_second :: filesystem where
  "broken_second =
     (\<lambda>p. if p = ''blueprint.go'' then Regular ''package main''
          else if p = ''neuron.go'' then Unreadable UnicodeDecodeError
          else Absent)"

subsection \<open>The Formatter on a fresh document\<close>

definition fresh_code_document :: document where
  "fresh_code_document =
     \<lparr>body = [code_block ''package main''], styles = default_styles @ [code_style]\<rparr>"

text \<open>
  The four attributes of the claim about the code style, read as attributes of a style.
\<close>

definition claimed_style_attributes :: "style \<Rightarrow> bool" where
  "claimed_style_attributes s =
     (f_name (s_font s) = Some ''Courier New'' \<and> f_size (s_font s) = Some (Pt 10) \<and>
      f_rgb (s_font s) = Some (RGBColor 0 0 0) \<and> s_shd s = Some ''D3D3D3'')"

text \<open>
  The document has no style named \<^verbatim>\<open>Code\<close>, or the one it has is the style that the
  Formatter registers.
\<close>

definition formatter_owns_code_style :: "document \<Rightarrow> bool" where
  "formatter_owns_code_style d =
     (case styles_getitem (styles d) ''Code'' of Inl e \<Rightarrow> True | Inr s \<Rightarrow> s = code_style)"

definition count_code_styles :: "document \<Rightarrow> nat" where
  "count_code_styles d = length (filter (\<lambda>s. s_name s = ''Code'') (styles d))"


section \<open>Properties of the library operations\<close>

lemma xml_compatible_Nil [simp]: "xml_compatible []"
  by (simp add: xml_compatible_def)

lemma default_no_Code: "\<not> styles_contains default_styles ''Code''"
  by (simp add: styles_contains_def default_styles_def default_paragraph_styles_def
      default_character_styles_def builtin_def)

lemma default_Title: "styles_getitem default_styles ''Title'' = Inr (builtin PARAGRAPH ''Title'')"
  by (simp add: styles_getitem_def default_styles_def default_paragraph_styles_def builtin_def)

lemma default_Heading1: "styles_getitem default_styles ''Heading 1'' = Inr (builtin PARAGRAPH ''Heading 1'')"
  by (simp add: styles_getitem_def default_styles_def default_paragraph_styles_def builtin_def)

lemma styles_getitem_Nil: "styles_getitem [] n = Inl KeyError"
  by (simp add: styles_getitem_def)

lemma styles_getitem_Cons:
  "styles_getitem (s # ss) n = (if s_name s = n then Inr s else styles_getitem ss n)"
  by (simp add: styles_getitem_def)

lemma styles_contains_Nil: "\<not> styles_contains [] n"
  by (simp add: styles_contains_def)

lemma styles_contains_Cons: "styles_contains (s # ss) n = (s_name s = n \<or> styles_contains ss n)"
  by (auto simp: styles_contains_def)

lemma styles_getitem_append:
  "styles_getitem (ss @ ts) n =
     (if styles_contains ss n then styles_getitem ss n else styles_getitem ts n)"
  by (induction ss) (auto simp: styles_getitem_def styles_contains_def)

lemma styles_contains_append:
  "styles_contains (ss @ ts) n = (styles_contains ss n \<or> styles_contains ts n)"
  by (auto simp: styles_contains_def)

lemma styles_getitem_Inr_iff:
  "(\<exists>s. styles_getitem ss n = Inr s) = styles_contains ss n"
  by (induction ss) (auto simp: styles_getitem_def styles_contains_def)

lemma styles_getitem_name: "styles_getitem ss n = Inr s \<Longrightarrow> s_name s = n \<and> s \<in> set ss"
  by (induction ss) (auto simp: styles_getitem_def split: if_splits)

lemma add_heading_eq:
  assumes "styles_getitem (styles d) (heading_style level) = Inr s" "s_type s = PARAGRAPH"
    "level \<le> 9" "xml_compatible txt"
  shows "add_heading d txt level = Inr (d\<lparr>body := body d @ [heading_paragraph level txt]\<rparr>)"
  using assms
  by (simp add: add_heading_def add_paragraph_def paragraph_add_run_def paragraph_set_style_def
      new_paragraph_def heading_paragraph_def)

lemma add_code_paragraph_new:
  assumes "\<not> styles_contains (styles d) ''Code''"
  shows "add_code_paragraph d code =
     (if xml_compatible code
      then Inr (d\<lparr>body := body d @ [code_block code], styles := styles d @ [code_style]\<rparr>)
      else Inl ValueError)"
  using assms
  by (auto simp add: add_code_paragraph_def add_paragraph_def add_style_def set_font_rgb_def
      set_font_size_def set_font_name_def upd_font_def set_paragraph_style_def upd_paragraph_def
      paragraph_set_style_def styles_getitem_append styles_contains_append add_run_def
      paragraph_add_run_def append_shd_def new_paragraph_def code_block_def code_style_def
      styles_getitem_Cons no_font_def)

lemma add_code_paragraph_old:
  assumes "styles_getitem (styles d) ''Code'' = Inr s"
  shows "add_code_paragraph d code =
     (if s_type s \<noteq> PARAGRAPH then Inl ValueError
      else if xml_compatible code
      then Inr (d\<lparr>body := body d @ [code_block code]\<rparr>)
      else Inl ValueError)"
proof -
  from assms have c: "styles_contains (styles d) ''Code''"
    using styles_getitem_Inr_iff by blast
  show ?thesis
    using assms c
    by (auto simp add: add_code_paragraph_def add_paragraph_def set_paragraph_style_def
        upd_paragraph_def paragraph_set_style_def add_run_def
        paragraph_add_run_def append_shd_def new_paragraph_def code_block_def)
qed

lemma heading_style_0: "heading_style 0 = ''Title''"
  by (simp add: heading_style_def)

lemma heading_style_1: "heading_style 1 = ''Heading 1''"
  by (simp add: heading_style_def str_nat.simps)

lemma code_style_simps:
  "s_name code_style = ''Code''" "s_type code_style = PARAGRAPH" "s_shd code_style = None"
  by (simp_all add: code_style_def)

lemma template_getitem_Heading1:
  "template_styles d \<Longrightarrow> styles_getitem (styles d) ''Heading 1'' = Inr (builtin PARAGRAPH ''Heading 1'')"
  by (auto simp: template_styles_def default_Heading1 styles_getitem_append styles_getitem_Cons
      styles_getitem_Nil code_style_simps styles_getitem_Inr_iff [symmetric])

lemma add_heading_template:
  assumes "template_styles d" "xml_compatible f"
  shows "add_heading d f 1 = Inr (d\<lparr>body := body d @ [heading_paragraph 1 f]\<rparr>)"
proof (rule add_heading_eq)
  show "styles_getitem (styles d) (heading_style 1) = Inr (builtin PARAGRAPH ''Heading 1'')"
    using assms(1) by (simp add: heading_style_1 template_getitem_Heading1 del: One_nat_def)
  show "s_type (builtin PARAGRAPH ''Heading 1'') = PARAGRAPH"
    by (simp add: builtin_def)
  show "(1::nat) \<le> 9" by simp
  show "xml_compatible f" by (rule assms(2))
qed

lemma add_code_paragraph_template:
  assumes "template_styles d"
  shows "add_code_paragraph d code =
     (if xml_compatible code
      then Inr (d\<lparr>body := body d @ [code_block code], styles := default_styles @ [code_style]\<rparr>)
      else Inl ValueError)"
proof (cases "styles d = default_styles")
  case True
  then have "\<not> styles_contains (styles d) ''Code''"
    by (simp add: default_no_Code)
  from add_code_paragraph_new [OF this] True show ?thesis by simp
next
  case False
  with assms have st: "styles d = default_styles @ [code_style]"
    by (simp add: template_styles_def)
  then have "styles_getitem (styles d) ''Code'' = Inr code_style"
    by (simp add: styles_getitem_append default_no_Code styles_getitem_Cons code_style_simps)
  from add_code_paragraph_old [OF this] st show ?thesis
    by (simp add: code_style_simps)
qed

lemma template_styles_update:
  "template_styles (d\<lparr>body := b, styles := default_styles @ [code_style]\<rparr>)"
  by (simp add: template_styles_def)

lemma loop_body_skip:
  "\<not> isfile fs f \<Longrightarrow> loop_body fs f d w = (Inr d, print (warning f) w)"
  by (simp add: loop_body_def)

lemma loop_body_file:
  assumes "template_styles d" "body d \<noteq> []" "xml_compatible f" "isfile fs f"
  shows "loop_body fs f d w =
     (case fs f of
        Unreadable e \<Rightarrow> (Inl e, w)
      | _ \<Rightarrow>
          if xml_compatible (the_code fs f)
          then (Inr (d\<lparr>body := body d @ file_section fs f, styles := default_styles @ [code_style]\<rparr>), w)
          else (Inl ValueError, w))"
proof -
  define d1 where "d1 = add_page_break d"
  define d2 where "d2 = d1\<lparr>body := body d1 @ [heading_paragraph 1 f]\<rparr>"
  have ts1: "template_styles d1"
    using assms(1) by (simp add: d1_def template_styles_def add_page_break_def)
  have ts2: "template_styles d2"
    using ts1 by (simp add: d2_def template_styles_def)
  have h: "add_heading d1 f 1 = Inr d2"
    unfolding d2_def by (rule add_heading_template [OF ts1 assms(3)])
  have c: "add_code_paragraph d2 code =
     (if xml_compatible code
      then Inr (d\<lparr>body := body d @ [page_break_paragraph, heading_paragraph 1 f, code_block code],
                 styles := default_styles @ [code_style]\<rparr>)
      else Inl ValueError)" for code
    unfolding add_code_paragraph_template [OF ts2]
    by (simp add: d2_def d1_def add_page_break_def page_break_paragraph_def new_paragraph_def
        del: One_nat_def)
  have body: "loop_body fs f d w =
     (case read_text fs f of
        Inl e \<Rightarrow> (Inl e, w)
      | Inr code \<Rightarrow> (case add_code_paragraph d2 code of Inl e \<Rightarrow> (Inl e, w) | Inr d3 \<Rightarrow> (Inr d3, w)))"
    using assms(2,4) h by (simp add: loop_body_def paragraphs_def d1_def del: One_nat_def)
  show ?thesis
    unfolding body c using assms(4)
    by (simp add: read_text_def isfile_def the_code_def file_section_def
        split: fs_entry.splits del: One_nat_def)
qed

lemma loop_body_written: "written (snd (loop_body fs f d w)) = written w"
  by (simp add: loop_body_def print_def Let_def split: sum.splits)

lemma for_loop_written: "written (snd (for_loop fs names d w)) = written w"
proof (induction names arbitrary: d w)
  case Nil
  show ?case by simp
next
  case (Cons f names)
  show ?case
  proof (cases "loop_body fs f d w")
    case (Pair r w')
    with loop_body_written [of fs f d w] have w': "written w' = written w" by simp
    show ?thesis
      using Pair w' Cons.IH by (cases r) simp_all
  qed
qed

lemma no_fatal_not_file: "\<not> isfile fs f \<Longrightarrow> no_fatal fs f"
  by (simp add: isfile_def no_fatal_def split: fs_entry.splits)

lemma no_fatal_file:
  "isfile fs f \<Longrightarrow> no_fatal fs f = (fs f = Regular (the_code fs f) \<and> xml_compatible (the_code fs f))"
  by (simp add: isfile_def no_fatal_def the_code_def split: fs_entry.splits)

lemma loop_body_no_fatal:
  assumes "template_styles d" "body d \<noteq> []" "xml_compatible f" "no_fatal fs f"
  shows "loop_body fs f d w =
     (Inr (loop_document fs [f] d), w\<lparr>console := console w @ loop_console fs [f]\<rparr>)"
proof (cases "isfile fs f")
  case True
  with assms(4) have "fs f = Regular (the_code fs f)" "xml_compatible (the_code fs f)"
    by (simp_all add: no_fatal_file)
  then show ?thesis
    using True loop_body_file [OF assms(1-3) True, of w]
    by (cases "fs f") (simp_all add: loop_document_def loop_console_def)
next
  case False
  then show ?thesis
    by (simp add: loop_body_skip loop_document_def loop_console_def print_def)
qed

lemma loop_body_fatal:
  assumes "template_styles d" "body d \<noteq> []" "xml_compatible f" "\<not> no_fatal fs f"
  shows "\<exists>e. loop_body fs f d w = (Inl e, w)"
proof -
  from assms(4) have isf: "isfile fs f"
    using no_fatal_not_file by blast
  show ?thesis
    using assms(4) loop_body_file [OF assms(1-3) isf, of w]
    by (cases "fs f") (simp_all add: no_fatal_def the_code_def)
qed

lemma loop_document_template:
  "template_styles d \<Longrightarrow> template_styles (loop_document fs names d)"
  by (simp add: loop_document_def template_styles_def)

lemma loop_document_body_nonempty:
  "body d \<noteq> [] \<Longrightarrow> body (loop_document fs names d) \<noteq> []"
  by (simp add: loop_document_def)

lemma loop_document_Cons:
  "loop_document fs (f # names) d = loop_document fs names (loop_document fs [f] d)"
  by (simp add: loop_document_def)

lemma loop_console_Cons:
  "loop_console fs (f # names) = loop_console fs [f] @ loop_console fs names"
  by (simp add: loop_console_def)

lemma for_loop_no_fatal:
  assumes "\<forall>f\<in>set names. xml_compatible f \<and> no_fatal fs f" "template_styles d" "body d \<noteq> []"
  shows "for_loop fs names d w =
     (Inr (loop_document fs names d), w\<lparr>console := console w @ loop_console fs names\<rparr>)"
  using assms
proof (induction names arbitrary: d w)
  case Nil
  show ?case by (simp add: loop_document_def loop_console_def)
next
  case (Cons f names)
  from Cons.prems have f: "xml_compatible f" "no_fatal fs f"
    and rest: "\<forall>g\<in>set names. xml_compatible g \<and> no_fatal fs g"
    by simp_all
  have step: "loop_body fs f d w =
     (Inr (loop_document fs [f] d), w\<lparr>console := console w @ loop_console fs [f]\<rparr>)"
    by (rule loop_body_no_fatal [OF Cons.prems(2,3) f])
  have "for_loop fs (f # names) d w =
     for_loop fs names (loop_document fs [f] d) (w\<lparr>console := console w @ loop_console fs [f]\<rparr>)"
    by (simp add: step)
  also have "\<dots> = (Inr (loop_document fs names (loop_document fs [f] d)),
      w\<lparr>console := console w @ loop_console fs [f] @ loop_console fs names\<rparr>)"
    using Cons.IH [OF rest loop_document_template [OF Cons.prems(2)]
        loop_document_body_nonempty [OF Cons.prems(3)]]
    by simp
  finally show ?case
    by (simp add: loop_document_Cons [of fs f names] loop_console_Cons [of fs f names])
qed

lemma for_loop_fatal:
  assumes "\<exists>f\<in>set names. \<not> no_fatal fs f" "\<forall>f\<in>set names. xml_compatible f"
    "template_styles d" "body d \<noteq> []"
  shows "\<exists>e w'. for_loop fs names d w = (Inl e, w')"
  using assms
proof (induction names arbitrary: d w)
  case Nil
  then show ?case by simp
next
  case (Cons f names)
  from Cons.prems(2) have xf: "xml_compatible f" and xr: "\<forall>g\<in>set names. xml_compatible g"
    by simp_all
  show ?case
  proof (cases "no_fatal fs f")
    case True
    with Cons.prems(1) have ex: "\<exists>g\<in>set names. \<not> no_fatal fs g" by auto
    have step: "loop_body fs f d w =
       (Inr (loop_document fs [f] d), w\<lparr>console := console w @ loop_console fs [f]\<rparr>)"
      by (rule loop_body_no_fatal [OF Cons.prems(3,4) xf True])
    from Cons.IH [OF ex xr loop_document_template [OF Cons.prems(3)]
        loop_document_body_nonempty [OF Cons.prems(4)]]
    show ?thesis by (simp add: step)
  next
    case False
    from loop_body_fatal [OF Cons.prems(3,4) xf False, of w]
    show ?thesis by auto
  qed
qed


lemma GO_FILES_xml: "\<forall>f\<in>set GO_FILES. xml_compatible f"
  by (simp add: GO_FILES_def xml_compatible_def)

lemma title_heading: "add_heading Document ''Go Code Documentation'' 0 = Inr title_document"
proof -
  have "add_heading Document ''Go Code Documentation'' 0 =
      Inr (Document\<lparr>body := body Document @ [heading_paragraph 0 ''Go Code Documentation'']\<rparr>)"
  proof (rule add_heading_eq)
    show "styles_getitem (styles Document) (heading_style 0) = Inr (builtin PARAGRAPH ''Title'')"
      by (simp add: Document_def heading_style_0 default_Title)
    show "s_type (builtin PARAGRAPH ''Title'') = PARAGRAPH" by (simp add: builtin_def)
    show "(0::nat) \<le> 9" by simp
    show "xml_compatible ''Go Code Documentation''" by (simp add: xml_compatible_def)
  qed
  then show ?thesis by (simp add: Document_def title_document_def)
qed

lemma title_document_facts: "template_styles title_document" "body title_document \<noteq> []"
  by (simp_all add: title_document_def template_styles_def)

lemma generate_document_no_fatal:
  assumes "\<forall>f\<in>set GO_FILES. no_fatal fs f"
  shows "generate_document fs =
     (Inr (), \<lparr>console = loop_console fs GO_FILES @ [completion],
               written = [(OUTPUT_DOC, loop_document fs GO_FILES title_document)]\<rparr>)"
proof -
  from assms GO_FILES_xml have "\<forall>f\<in>set GO_FILES. xml_compatible f \<and> no_fatal fs f" by blast
  from for_loop_no_fatal [OF this title_document_facts]
  show ?thesis
    by (simp add: generate_document_def title_heading print_def save_def)
qed

lemma generate_document_fatal:
  assumes "\<exists>f\<in>set GO_FILES. \<not> no_fatal fs f"
  shows "\<exists>e w. generate_document fs = (Inl e, w) \<and> written w = []"
proof -
  from for_loop_fatal [OF assms GO_FILES_xml title_document_facts]
  obtain e w where l: "for_loop fs GO_FILES title_document \<lparr>console = [], written = []\<rparr> = (Inl e, w)"
    by blast
  with for_loop_written [of fs GO_FILES title_document "\<lparr>console = [], written = []\<rparr>"]
  have "written w = []" by simp
  with l show ?thesis
    by (simp add: generate_document_def title_heading)
qed

subsection \<open>Reading the expected paragraphs\<close>

lemma is_heading_simps:
  "\<not> is_heading 1 page_break_paragraph" "is_heading level (heading_paragraph level f)"
  "\<not> is_heading 1 (code_block c)" "\<not> is_heading 1 (heading_paragraph 0 t)"
  by (simp_all add: is_heading_def page_break_paragraph_def heading_paragraph_def code_block_def
      heading_style_def)

lemma p_text_heading: "p_text (heading_paragraph level s) = s"
  by (simp add: p_text_def heading_paragraph_def run_text_def)

lemma p_text_code_block: "p_text (code_block c) = c"
  by (simp add: p_text_def code_block_def run_text_def)

lemma has_page_break_simps:
  "has_page_break page_break_paragraph" "\<not> has_page_break (heading_paragraph level s)"
  "\<not> has_page_break (code_block c)"
  by (simp_all add: has_page_break_def page_break_paragraph_def heading_paragraph_def code_block_def)

lemma is_code_block_simps:
  "\<not> is_code_block page_break_paragraph" "\<not> is_code_block (heading_paragraph 1 s)"
  "is_code_block (code_block c)" "\<not> is_code_block (heading_paragraph 0 s)"
  by (simp_all add: is_code_block_def page_break_paragraph_def heading_paragraph_def code_block_def
      heading_style_def)

lemma sections_headings:
  "map p_text (filter (is_heading 1) (concat (map (file_section fs) xs))) = xs"
  by (induction xs) (simp_all add: file_section_def is_heading_simps p_text_heading del: One_nat_def)

lemma sections_page_breaks:
  "length (filter has_page_break (concat (map (file_section fs) xs))) = length xs"
  by (induction xs) (simp_all add: file_section_def has_page_break_simps)


lemma headings_loop_document:
  "headings 1 (loop_document fs names d) = headings 1 d @ filter (isfile fs) names"
  by (simp add: headings_def loop_document_def sections_headings del: One_nat_def)

lemma page_breaks_loop_document:
  "page_breaks (loop_document fs names d) = page_breaks d + length (filter (isfile fs) names)"
  by (simp add: page_breaks_def loop_document_def sections_page_breaks)


lemma title_document_reads:
  "headings 1 title_document = []" "page_breaks title_document = 0" "code_blocks title_document = []"
  "headings 0 title_document = [''Go Code Documentation'']"
  by (simp_all add: title_document_def headings_def page_breaks_def code_blocks_def
      is_heading_simps has_page_break_simps is_code_block_simps p_text_heading del: One_nat_def)

lemma generate_document_cases:
  "(\<exists>e w. generate_document fs = (Inl e, w) \<and> written w = [] \<and> (\<exists>f\<in>set GO_FILES. \<not> no_fatal fs f)) \<or>
   (generate_document fs =
     (Inr (), \<lparr>console = loop_console fs GO_FILES @ [completion],
               written = [(OUTPUT_DOC, loop_document fs GO_FILES title_document)]\<rparr>) \<and>
    (\<forall>f\<in>set GO_FILES. no_fatal fs f))"
  using generate_document_no_fatal [of fs] generate_document_fatal [of fs] by blast

lemma blueprint_only_facts:
  "filter (isfile blueprint_only) GO_FILES = [''blueprint.go'']"
  "filter (\<lambda>f. \<not> isfile blueprint_only f) GO_FILES = [''neuron.go'', ''eval.go'', ''utils.go'']"
  "\<forall>f\<in>set GO_FILES. no_fatal blueprint_only f"
  "the_code blueprint_only ''blueprint.go'' = ''package main''"
  by (simp_all add: blueprint_only_def GO_FILES_def isfile_def no_fatal_def the_code_def xml_compatible_def)

subsection \<open>When the run saves\<close>

lemma generate_document_saves_iff:
  "(\<exists>w. generate_document fs = (Inr (), w)) = (\<forall>f\<in>set GO_FILES. no_fatal fs f)"
  using generate_document_cases [of fs] by auto

lemma generate_document_saved:
  assumes "generate_document fs = (Inr (), w)"
  shows "w = \<lparr>console = loop_console fs GO_FILES @ [completion],
               written = [(OUTPUT_DOC, loop_document fs GO_FILES title_document)]\<rparr>"
  using generate_document_cases [of fs] assms by auto

lemma GO_FILES_distinct: "distinct GO_FILES"
  by (simp add: GO_FILES_def)

lemma count_list_filter_distinct:
  "distinct xs \<Longrightarrow> x \<in> set xs \<Longrightarrow> P x \<Longrightarrow> count_list (filter P xs) x = 1"
  by (induction xs) auto

lemma warning_inject: "(warning f = warning g) = (f = g)"
  by (simp add: warning_def)

lemma count_list_map_warning: "count_list (map warning xs) (warning f) = count_list xs f"
  by (induction xs) (simp_all add: warning_inject)

lemma completion_not_warning: "completion \<noteq> warning f"
  by (simp add: completion_def warning_def)

lemma mixed_files_facts:
  "filter (isfile mixed_files) GO_FILES = [''blueprint.go'', ''eval.go'']"
  "filter (\<lambda>f. \<not> isfile mixed_files f) GO_FILES = [''neuron.go'', ''utils.go'']"
  "\<forall>f\<in>set GO_FILES. no_fatal mixed_files f"
  by (simp_all add: mixed_files_def GO_FILES_def isfile_def no_fatal_def xml_compatible_def)

subsection \<open>The Formatter\<close>

lemma styles_contains_filter:
  "styles_contains ss n = (filter (\<lambda>s. s_name s = n) ss \<noteq> [])"
  by (induction ss) (auto simp: styles_contains_def)

lemma add_code_paragraph_cases:
  assumes "add_code_paragraph d code = Inr d'"
  shows "xml_compatible code \<and>
     (if styles_contains (styles d) ''Code''
      then (\<exists>s. styles_getitem (styles d) ''Code'' = Inr s \<and> s_type s = PARAGRAPH) \<and>
           d' = d\<lparr>body := body d @ [code_block code]\<rparr>
      else d' = d\<lparr>body := body d @ [code_block code], styles := styles d @ [code_style]\<rparr>)"
proof (cases "styles_contains (styles d) ''Code''")
  case True
  then obtain s where s: "styles_getitem (styles d) ''Code'' = Inr s"
    using styles_getitem_Inr_iff by blast
  from assms add_code_paragraph_old [OF s, of code] True s show ?thesis
    by (auto split: if_splits)
next
  case False
  from assms add_code_paragraph_new [OF False, of code] False show ?thesis
    by (auto split: if_splits)
qed

lemma add_code_paragraph_returns_iff:
  "(\<exists>d'. add_code_paragraph d code = Inr d') =
     (xml_compatible code \<and> (\<forall>s. styles_getitem (styles d) ''Code'' = Inr s \<longrightarrow> s_type s = PARAGRAPH))"
proof (cases "styles_contains (styles d) ''Code''")
  case True
  then obtain s where s: "styles_getitem (styles d) ''Code'' = Inr s"
    using styles_getitem_Inr_iff by blast
  show ?thesis
    using add_code_paragraph_old [OF s, of code] s by auto
next
  case False
  then have "\<And>s. styles_getitem (styles d) ''Code'' \<noteq> Inr s"
    using styles_getitem_Inr_iff by blast
  then show ?thesis
    using add_code_paragraph_new [OF False, of code] by auto
qed

lemma code_style_after:
  assumes "add_code_paragraph d code = Inr d'"
  shows "\<exists>s. styles_getitem (styles d') ''Code'' = Inr s \<and> s_type s = PARAGRAPH"
proof (cases "styles_contains (styles d) ''Code''")
  case True
  with add_code_paragraph_cases [OF assms] show ?thesis by auto
next
  case False
  with add_code_paragraph_cases [OF assms]
  have "styles d' = styles d @ [code_style]" by simp
  with False show ?thesis
    by (simp add: styles_getitem_append styles_getitem_Cons code_style_simps)
qed

lemma add_code_paragraph_fresh: "add_code_paragraph Document ''package main'' = Inr fresh_code_document"
proof -
  have "\<not> styles_contains (styles Document) ''Code''"
    by (simp add: Document_def default_no_Code)
  from add_code_paragraph_new [OF this, of "''package main''"] show ?thesis
    by (simp add: xml_compatible_def Document_def fresh_code_document_def)
qed

lemma template_formatter_owns: "template_styles d \<Longrightarrow> formatter_owns_code_style d"
proof -
  have "styles_getitem default_styles ''Code'' = Inl KeyError"
    using styles_getitem_Inr_iff [of default_styles "''Code''"] default_no_Code
    by (cases "styles_getitem default_styles ''Code''")
      (auto simp: styles_getitem_def split: option.splits)
  then show "template_styles d \<Longrightarrow> formatter_owns_code_style d"
    by (auto simp: template_styles_def formatter_owns_code_style_def styles_getitem_append
        default_no_Code styles_getitem_Cons code_style_simps)
qed

subsection \<open>Runs on the sample file systems\<close>

lemma for_loop_cong_isfile:
  assumes "\<forall>f\<in>set names. isfile fs1 f = isfile fs2 f \<and> (isfile fs1 f \<longrightarrow> read_text fs1 f = read_text fs2 f)"
  shows "for_loop fs1 names d w = for_loop fs2 names d w"
  using assms
proof (induction names arbitrary: d w)
  case Nil
  show ?case by simp
next
  case (Cons f names)
  from Cons.prems have i: "isfile fs1 f = isfile fs2 f"
    and r: "isfile fs1 f \<Longrightarrow> read_text fs1 f = read_text fs2 f"
    by simp_all
  have "loop_body fs1 f d w = loop_body fs2 f d w"
  proof (cases "isfile fs1 f")
    case True
    from r [OF True] have r': "read_text fs1 f = read_text fs2 f" .
    show ?thesis
      unfolding loop_body_def i r' by (rule refl)
  next
    case False
    with i show ?thesis by (simp add: loop_body_skip)
  qed
  with Cons show ?case by (simp split: prod.splits sum.splits)
qed

lemma broken_second_run:
  "generate_document broken_second = (Inl UnicodeDecodeError, \<lparr>console = [], written = []\<rparr>)"
proof -
  have b: "isfile broken_second ''blueprint.go''" "broken_second ''blueprint.go'' = Regular ''package main''"
    "the_code broken_second ''blueprint.go'' = ''package main''"
    and n: "isfile broken_second ''neuron.go''" "broken_second ''neuron.go'' = Unreadable UnicodeDecodeError"
    by (simp_all add: broken_second_def isfile_def the_code_def)
  have x: "xml_compatible ''blueprint.go''" "xml_compatible ''neuron.go''" "xml_compatible ''package main''"
    by (simp_all add: xml_compatible_def)
  let ?w = "\<lparr>console = [], written = []\<rparr>"
  let ?d = "title_document\<lparr>body := body title_document @ file_section broken_second ''blueprint.go'',
              styles := default_styles @ [code_style]\<rparr>"
  have 1: "loop_body broken_second ''blueprint.go'' title_document ?w = (Inr ?d, ?w)"
    using loop_body_file [OF title_document_facts x(1) b(1), of ?w] b(2,3) x(3) by simp
  have ts: "template_styles ?d"
    by (rule template_styles_update)
  have ne: "body ?d \<noteq> []"
    by (simp add: title_document_def)
  have 2: "loop_body broken_second ''neuron.go'' ?d ?w = (Inl UnicodeDecodeError, ?w)"
    using loop_body_file [OF ts ne x(2) n(1), of ?w] n(2) by simp
  show ?thesis
    by (simp add: generate_document_def title_heading GO_FILES_def 1 2)
qed

text \<open>
  In a saved document every processed file has its page break, the first one included.
\<close>

lemma page_breaks_saved:
  assumes "generate_document fs = (Inr (), w)"
  shows "\<exists>d. written w = [(OUTPUT_DOC, d)] \<and> page_breaks d = length (filter (isfile fs) GO_FILES)"
  using generate_document_saved [OF assms]
  by (simp add: page_breaks_loop_document title_document_reads)

section \<open>The claims\<close>

text \<open>
  C1. The claim: no page break before the first processed file, and as many page breaks
  as processed files minus one. The script's guard \<^verbatim>\<open>if document.paragraphs\<close> is
  meant to leave the first file without a break, as its comment says, but the title
  heading is already a paragraph of the document, so the guard always holds. With only
  \<^verbatim>\<open>blueprint.go\<close> on disk the saved document has one page break, between the
  title and the heading of that first file, where the claim has none; in general a
  saved document has as many page breaks as processed files (\<open>page_breaks_saved\<close>).
\<close>

theorem page_break_before_first_file:
  "generate_document blueprint_only =
     (Inr (), \<lparr>console = [warning ''neuron.go'', warning ''eval.go'', warning ''utils.go'', completion],
               written = [(OUTPUT_DOC, blueprint_only_document)]\<rparr>) \<and>
   page_breaks blueprint_only_document = 1 \<and>
   map has_page_break (body blueprint_only_document) = [False, True, False, False] \<and>
   headings 1 blueprint_only_document = [''blueprint.go'']"
proof -
  have "generate_document blueprint_only =
     (Inr (), \<lparr>console = loop_console blueprint_only GO_FILES @ [completion],
               written = [(OUTPUT_DOC, loop_document blueprint_only GO_FILES title_document)]\<rparr>)"
    by (rule generate_document_no_fatal [OF blueprint_only_facts(3)])
  moreover have "loop_document blueprint_only GO_FILES title_document = blueprint_only_document"
    by (simp add: loop_document_def blueprint_only_facts file_section_def title_document_def
        blueprint_only_document_def del: One_nat_def)
  moreover have "loop_console blueprint_only GO_FILES =
      [warning ''neuron.go'', warning ''eval.go'', warning ''utils.go'']"
    by (simp add: loop_console_def blueprint_only_facts)
  moreover have "page_breaks blueprint_only_document = 1"
    "map has_page_break (body blueprint_only_document) = [False, True, False, False]"
    "headings 1 blueprint_only_document = [''blueprint.go'']"
    by (simp_all add: blueprint_only_document_def page_breaks_def headings_def has_page_break_simps
        is_heading_simps p_text_heading del: One_nat_def)
  ultimately show ?thesis by simp
qed

text \<open>
  C2. For every file name of the list that is a file on disk (the script's test is
  \<^verbatim>\<open>os.path.isfile\<close>), the saved document has exactly one level-1 heading with that
  name, and the level-1 headings are those names in list order. The run saves exactly
  when no entry of the list is fatal (\<open>generate_document_saves_iff\<close>).
\<close>

theorem headings_in_list_order:
  assumes "\<forall>f\<in>set GO_FILES. no_fatal fs f"
  shows "\<exists>w d. generate_document fs = (Inr (), w) \<and> written w = [(OUTPUT_DOC, d)] \<and>
           headings 1 d = filter (isfile fs) GO_FILES \<and>
           (\<forall>f\<in>set GO_FILES. isfile fs f \<longrightarrow> count_list (headings 1 d) f = 1)"
proof -
  let ?d = "loop_document fs GO_FILES title_document"
  have h: "headings 1 ?d = filter (isfile fs) GO_FILES"
    by (simp add: headings_loop_document title_document_reads del: One_nat_def)
  have "\<forall>f\<in>set GO_FILES. isfile fs f \<longrightarrow> count_list (headings 1 ?d) f = 1"
    unfolding h using GO_FILES_distinct by (simp add: count_list_filter_distinct)
  with h generate_document_no_fatal [OF assms] show ?thesis by simp
qed

theorem headings_in_list_order_witness:
  "\<exists>w d. generate_document mixed_files = (Inr (), w) \<and> written w = [(OUTPUT_DOC, d)] \<and>
     headings 1 d = [''blueprint.go'', ''eval.go''] \<and>
     count_list (headings 1 d) ''eval.go'' = 1"
  using headings_in_list_order [OF mixed_files_facts(3)]
  by (auto simp add: mixed_files_facts(1))

text \<open>
  C3. A file name that is absent from disk: the loop body prints exactly the warning
  line with that name, leaves the document as it was (no heading, page break or code
  block) and raises nothing, so the loop goes on with the remaining names. When no other
  entry is fatal the run reaches the save: the console has the warning once and the
  saved document has no heading with that name.
\<close>

theorem missing_file_warned_and_skipped:
  assumes "fs go_file = Absent"
  shows "loop_body fs go_file document w =
           (Inr document,
            w\<lparr>console := console w @ [''Warning: '' @ go_file @ '' does not exist and will be skipped.'']\<rparr>) \<and>
         for_loop fs (go_file # rest) document w =
           for_loop fs rest document
            (w\<lparr>console := console w @ [''Warning: '' @ go_file @ '' does not exist and will be skipped.'']\<rparr>) \<and>
         (go_file \<in> set GO_FILES \<and> (\<forall>f\<in>set GO_FILES. no_fatal fs f) \<longrightarrow>
           (\<exists>w' d. generate_document fs = (Inr (), w') \<and> written w' = [(OUTPUT_DOC, d)] \<and>
              count_list (console w') (''Warning: '' @ go_file @ '' does not exist and will be skipped.'') = 1 \<and>
              go_file \<notin> set (headings 1 d)))"
proof -
  from assms have nf: "\<not> isfile fs go_file"
    by (simp add: isfile_def)
  have body: "loop_body fs go_file document w =
      (Inr document, w\<lparr>console := console w @ [warning go_file]\<rparr>)"
    using loop_body_skip [OF nf] by (simp add: print_def)
  have run: "\<exists>w' d. generate_document fs = (Inr (), w') \<and> written w' = [(OUTPUT_DOC, d)] \<and>
      count_list (console w') (warning go_file) = 1 \<and> go_file \<notin> set (headings 1 d)"
    if "go_file \<in> set GO_FILES" "\<forall>f\<in>set GO_FILES. no_fatal fs f"
  proof -
    have "count_list (loop_console fs GO_FILES @ [completion]) (warning go_file) = 1"
      using that(1) nf GO_FILES_distinct
      by (simp add: loop_console_def count_list_map_warning count_list_filter_distinct
          completion_not_warning)
    moreover have "go_file \<notin> set (headings 1 (loop_document fs GO_FILES title_document))"
      using nf by (simp add: headings_loop_document title_document_reads del: One_nat_def)
    ultimately show ?thesis
      using generate_document_no_fatal [OF that(2)] by simp
  qed
  show ?thesis
    using body run by (simp add: warning_def)
qed

theorem missing_file_warned_and_skipped_witness:
  "blueprint_only ''neuron.go'' = Absent \<and>
   loop_body blueprint_only ''neuron.go'' title_document \<lparr>console = [], written = []\<rparr> =
     (Inr title_document,
      \<lparr>console = [''Warning: neuron.go does not exist and will be skipped.''], written = []\<rparr>) \<and>
   (\<exists>w' d. generate_document blueprint_only = (Inr (), w') \<and> written w' = [(OUTPUT_DOC, d)] \<and>
      count_list (console w') ''Warning: neuron.go does not exist and will be skipped.'' = 1 \<and>
      ''neuron.go'' \<notin> set (headings 1 d))"
proof -
  have a: "blueprint_only ''neuron.go'' = Absent"
    by (simp add: blueprint_only_def)
  have m: "''neuron.go'' \<in> set GO_FILES"
    by (simp add: GO_FILES_def)
  from missing_file_warned_and_skipped
      [of blueprint_only "''neuron.go''" title_document "\<lparr>console = [], written = []\<rparr>", OF a]
    m blueprint_only_facts(3) a
  show ?thesis by simp
qed

text \<open>
  C4. After an invocation of the Formatter that returned, the document has a style
  named \<^verbatim>\<open>Code\<close>: the first invocation on a document without one appends exactly one,
  an invocation on a document with one adds none. Every later invocation leaves the
  style list as it is, and it returns whenever the library accepts its text.
\<close>

theorem code_style_created_once:
  assumes "add_code_paragraph d c1 = Inr d1"
  shows "styles_contains (styles d1) ''Code'' \<and>
         (\<not> styles_contains (styles d) ''Code'' \<longrightarrow>
            styles d1 = styles d @ [code_style] \<and> count_code_styles d1 = 1) \<and>
         (styles_contains (styles d) ''Code'' \<longrightarrow> styles d1 = styles d) \<and>
         (xml_compatible c2 \<longrightarrow> (\<exists>d2. add_code_paragraph d1 c2 = Inr d2)) \<and>
         (\<forall>d2. add_code_paragraph d1 c2 = Inr d2 \<longrightarrow>
            styles d2 = styles d1 \<and> count_code_styles d2 = count_code_styles d1)"
proof -
  from code_style_after [OF assms]
  obtain s where s: "styles_getitem (styles d1) ''Code'' = Inr s" "s_type s = PARAGRAPH"
    by blast
  then have c1: "styles_contains (styles d1) ''Code''"
    using styles_getitem_Inr_iff by blast
  have new: "styles d1 = styles d @ [code_style] \<and> count_code_styles d1 = 1"
    if "\<not> styles_contains (styles d) ''Code''"
    using add_code_paragraph_cases [OF assms] that
    by (simp add: count_code_styles_def code_style_simps styles_contains_filter)
  have old: "styles d1 = styles d" if "styles_contains (styles d) ''Code''"
    using add_code_paragraph_cases [OF assms] that by auto
  have again: "\<exists>d2. add_code_paragraph d1 c2 = Inr d2" if "xml_compatible c2"
    using add_code_paragraph_old [OF s(1), of c2] s(2) that by simp
  have same: "styles d2 = styles d1 \<and> count_code_styles d2 = count_code_styles d1"
    if "add_code_paragraph d1 c2 = Inr d2" for d2
    using add_code_paragraph_cases [OF that] c1 by (auto simp: count_code_styles_def)
  from c1 new old again same show ?thesis by blast
qed

theorem code_style_created_once_witness:
  "add_code_paragraph Document ''package main'' = Inr fresh_code_document \<and>
   styles fresh_code_document = styles Document @ [code_style] \<and>
   count_code_styles fresh_code_document = 1 \<and>
   (\<exists>d2. add_code_paragraph fresh_code_document ''package eval'' = Inr d2 \<and>
      styles d2 = styles fresh_code_document \<and> count_code_styles d2 = 1)"
proof -
  have x: "xml_compatible ''package eval''"
    by (simp add: xml_compatible_def)
  have n: "\<not> styles_contains (styles Document) ''Code''"
    by (simp add: Document_def default_no_Code)
  from code_style_created_once [OF add_code_paragraph_fresh, of "''package eval''"] x n
  show ?thesis
    by (auto simp add: add_code_paragraph_fresh)
qed

text \<open>
  C5, as claimed: the four attributes, the shading among them, are attributes of the
  registered \<^verbatim>\<open>Code\<close> style. On a fresh document the Formatter registers a style with
  the three font attributes and without shading; the shading is on the paragraph.
\<close>

theorem shading_not_a_style_attribute:
  "add_code_paragraph Document ''package main'' = Inr fresh_code_document \<and>
   styles_getitem (styles fresh_code_document) ''Code'' = Inr code_style \<and>
   \<not> claimed_style_attributes code_style \<and>
   s_shd code_style = None \<and>
   map p_shd (body fresh_code_document) = [[''D3D3D3'']]"
  by (simp add: add_code_paragraph_fresh fresh_code_document_def styles_getitem_append default_no_Code
      styles_getitem_Cons code_style_simps claimed_style_attributes_def code_block_def)

text \<open>
  C5, amended. On a document whose \<^verbatim>\<open>Code\<close> style, if it has one, is the Formatter's
  own, every code block that the Formatter appends has the paragraph style \<^verbatim>\<open>Code\<close>,
  the code as its text and the light-gray shading \<^verbatim>\<open>D3D3D3\<close> on the paragraph itself;
  the registered \<^verbatim>\<open>Code\<close> style is a paragraph style with the font Courier New, 10 point
  and black, and it has no shading.
\<close>

theorem code_block_format:
  assumes "add_code_paragraph d code = Inr d'" "formatter_owns_code_style d"
  shows "body d' = body d @ [last (body d')] \<and>
         p_style (last (body d')) = Some ''Code'' \<and>
         p_text (last (body d')) = code \<and>
         p_shd (last (body d')) = [''D3D3D3''] \<and>
         (\<exists>s. styles_getitem (styles d') ''Code'' = Inr s \<and> s_type s = PARAGRAPH \<and>
            f_name (s_font s) = Some ''Courier New'' \<and> f_size (s_font s) = Some (Pt 10) \<and>
            f_rgb (s_font s) = Some (RGBColor 0 0 0) \<and> s_shd s = None) \<and>
         formatter_owns_code_style d'"
proof -
  have b: "body d' = body d @ [code_block code]"
    using add_code_paragraph_cases [OF assms(1)] by (auto split: if_splits)
  have s: "styles_getitem (styles d') ''Code'' = Inr code_style"
  proof (cases "styles_contains (styles d) ''Code''")
    case True
    then obtain s where "styles_getitem (styles d) ''Code'' = Inr s"
      using styles_getitem_Inr_iff by blast
    with assms(2) have "styles_getitem (styles d) ''Code'' = Inr code_style"
      by (simp add: formatter_owns_code_style_def)
    with True add_code_paragraph_cases [OF assms(1)] show ?thesis by auto
  next
    case False
    with add_code_paragraph_cases [OF assms(1)] show ?thesis
      by (simp add: styles_getitem_append styles_getitem_Cons code_style_simps)
  qed
  have c: "p_style (code_block code) = Some ''Code''" "p_shd (code_block code) = [''D3D3D3'']"
    by (simp_all add: code_block_def)
  have f: "f_name (s_font code_style) = Some ''Courier New''"
    "f_size (s_font code_style) = Some (Pt 10)" "f_rgb (s_font code_style) = Some (RGBColor 0 0 0)"
    by (simp_all add: code_style_def)
  from b s c f show ?thesis
    by (simp add: p_text_code_block code_style_simps formatter_owns_code_style_def)
qed

theorem code_block_format_witness:
  "add_code_paragraph Document ''package main'' = Inr fresh_code_document \<and>
   formatter_owns_code_style Document \<and>
   p_style (last (body fresh_code_document)) = Some ''Code'' \<and>
   p_text (last (body fresh_code_document)) = ''package main'' \<and>
   p_shd (last (body fresh_code_document)) = [''D3D3D3''] \<and>
   (\<exists>s. styles_getitem (styles fresh_code_document) ''Code'' = Inr s \<and>
      f_name (s_font s) = Some ''Courier New'' \<and> f_size (s_font s) = Some 127000 \<and>
      f_rgb (s_font s) = Some (0, 0, 0) \<and> s_shd s = None)"
proof -
  have o: "formatter_owns_code_style Document"
    by (rule template_formatter_owns) (simp add: template_styles_def Document_def)
  from code_block_format [OF add_code_paragraph_fresh o] o show ?thesis
    by (auto simp add: add_code_paragraph_fresh Pt_def RGBColor_def)
qed



text \<open>
  C7. The loop never writes to disk. A run that returns has written once, the document
  to the output path, after the loop; a run that ends in an exception, from a read, a
  decoding or the library, has written nothing.
\<close>

theorem saved_once_after_loop:
  "written (snd (for_loop fs names document w)) = written w \<and>
   (\<forall>w'. generate_document fs = (Inr (), w') \<longrightarrow>
      (\<exists>d. for_loop fs GO_FILES title_document \<lparr>console = [], written = []\<rparr> =
              (Inr d, \<lparr>console = loop_console fs GO_FILES, written = []\<rparr>) \<and>
           written w' = [(OUTPUT_DOC, d)])) \<and>
   (\<forall>e w'. generate_document fs = (Inl e, w') \<longrightarrow> written w' = [])"
proof -
  have "\<exists>d. for_loop fs GO_FILES title_document \<lparr>console = [], written = []\<rparr> =
              (Inr d, \<lparr>console = loop_console fs GO_FILES, written = []\<rparr>) \<and>
           written w' = [(OUTPUT_DOC, d)]"
    if s: "generate_document fs = (Inr (), w')" for w'
  proof -
    from s have "\<forall>f\<in>set GO_FILES. no_fatal fs f"
      using generate_document_saves_iff by blast
    with GO_FILES_xml have "\<forall>f\<in>set GO_FILES. xml_compatible f \<and> no_fatal fs f" by blast
    from for_loop_no_fatal [OF this title_document_facts, of "\<lparr>console = [], written = []\<rparr>"]
      generate_document_saved [OF s]
    show ?thesis by simp
  qed
  moreover have "written w' = []" if "generate_document fs = (Inl e, w')" for e w'
    using generate_document_cases [of fs] that by auto
  ultimately show ?thesis
    using for_loop_written [of fs names document w] by blast
qed

theorem saved_once_after_loop_witness:
  "generate_document broken_second = (Inl UnicodeDecodeError, \<lparr>console = [], written = []\<rparr>) \<and>
   written (snd (generate_document broken_second)) = [] \<and>
   (\<exists>w d. generate_document blueprint_only = (Inr (), w) \<and> written w = [(OUTPUT_DOC, d)])"
proof -
  have ok: "\<exists>w. generate_document blueprint_only = (Inr (), w)"
    using generate_document_saves_iff blueprint_only_facts(3) by blast
  from saved_once_after_loop [of broken_second "[]" title_document "\<lparr>console = [], written = []\<rparr>"]
    broken_second_run
  have "written (snd (generate_document broken_second)) = []"
    by simp
  moreover from saved_once_after_loop [of blueprint_only "[]" title_document "\<lparr>console = [], written = []\<rparr>"] ok
  have "\<exists>w d. generate_document blueprint_only = (Inr (), w) \<and> written w = [(OUTPUT_DOC, d)]"
    by blast
  ultimately show ?thesis
    using broken_second_run by simp
qed



text \<open>
  C9. A listed name that is a directory fails the script's \<^verbatim>\<open>os.path.isfile\<close> test like
  an absent one: the loop body prints the warning, leaves the document as it was and
  raises nothing, the file is never opened, and the whole run is the run on the file
  system with that name absent.
\<close>

theorem directory_treated_as_missing:
  assumes "fs go_file = Directory"
  shows "loop_body fs go_file document w = (Inr document, print (warning go_file) w) \<and>
         loop_body fs go_file document w = loop_body (fs(go_file := Absent)) go_file document w \<and>
         generate_document fs = generate_document (fs(go_file := Absent))"
proof -
  from assms have nf: "\<not> isfile fs go_file" "\<not> isfile (fs(go_file := Absent)) go_file"
    by (simp_all add: isfile_def)
  have "\<forall>f\<in>set GO_FILES. isfile fs f = isfile (fs(go_file := Absent)) f \<and>
      (isfile fs f \<longrightarrow> read_text fs f = read_text (fs(go_file := Absent)) f)"
    using assms by (simp add: isfile_def read_text_def)
  from for_loop_cong_isfile [OF this]
  have l: "for_loop fs GO_FILES d v = for_loop (fs(go_file := Absent)) GO_FILES d v" for d v .
  have "generate_document fs = generate_document (fs(go_file := Absent))"
    unfolding generate_document_def l by (rule refl)
  with nf show ?thesis
    by (simp add: loop_body_skip)
qed

theorem directory_treated_as_missing_witness:
  "mixed_files ''utils.go'' = Directory \<and>
   loop_body mixed_files ''utils.go'' title_document \<lparr>console = [], written = []\<rparr> =
     (Inr title_document,
      \<lparr>console = [''Warning: utils.go does not exist and will be skipped.''], written = []\<rparr>) \<and>
   generate_document mixed_files = generate_document (mixed_files(''utils.go'' := Absent)) \<and>
   (\<exists>w. generate_document mixed_files = (Inr (), w))"
proof -
  have d: "mixed_files ''utils.go'' = Directory"
    by (simp add: mixed_files_def)
  have "\<exists>w. generate_document mixed_files = (Inr (), w)"
    using generate_document_saves_iff mixed_files_facts(3) by blast
  with directory_treated_as_missing
    [of mixed_files "''utils.go''" title_document "\<lparr>console = [], written = []\<rparr>", OF d] d
  show ?thesis
    by (simp add: print_def warning_def)
qed

text \<open>
  C10. Every invocation of the Formatter that returns appends one paragraph, and that
  paragraph has one shading element of its own, with the fill \<^verbatim>\<open>D3D3D3\<close>, whether the
  \<^verbatim>\<open>Code\<close> style was there before or not. No style receives shading: the style list is
  unchanged when the style was there, and is extended by a style without shading when
  it was not. The Formatter returns exactly when the library accepts the text and the
  \<^verbatim>\<open>Code\<close> style, if the document has one, is a paragraph style
  (\<open>add_code_paragraph_returns_iff\<close>).
\<close>

theorem shading_on_every_code_paragraph:
  assumes "add_code_paragraph d code = Inr d'"
  shows "(\<exists>p. body d' = body d @ [p] \<and> p_shd p = [''D3D3D3'']) \<and>
         (styles_contains (styles d) ''Code'' \<longrightarrow> styles d' = styles d) \<and>
         (\<not> styles_contains (styles d) ''Code'' \<longrightarrow>
            (\<exists>s. styles d' = styles d @ [s] \<and> s_shd s = None)) \<and>
         map s_shd (styles d') =
           map s_shd (styles d) @ (if styles_contains (styles d) ''Code'' then [] else [None])"
proof -
  have "p_shd (code_block code) = [''D3D3D3'']"
    by (simp add: code_block_def)
  with add_code_paragraph_cases [OF assms] show ?thesis
    by (auto simp add: code_style_simps split: if_splits)
qed

theorem shading_on_every_code_paragraph_witness:
  "add_code_paragraph Document ''package main'' = Inr fresh_code_document \<and>
   map p_shd (body fresh_code_document) = [[''D3D3D3'']] \<and>
   map s_shd (styles fresh_code_document) = map s_shd (styles Document) @ [None] \<and>
   (\<exists>d2. add_code_paragraph fresh_code_document ''package eval'' = Inr d2 \<and>
      map p_shd (body d2) = [[''D3D3D3''], [''D3D3D3'']] \<and>
      styles d2 = styles fresh_code_document)"
proof -
  have n: "\<not> styles_contains (styles Document) ''Code''"
    by (simp add: Document_def default_no_Code)
  have y: "styles_contains (styles fresh_code_document) ''Code''"
    by (simp add: fresh_code_document_def styles_contains_append styles_contains_Cons code_style_simps)
  have "xml_compatible ''package eval''"
    by (simp add: xml_compatible_def)
  with add_code_paragraph_returns_iff [of fresh_code_document "''package eval''"]
    code_style_after [OF add_code_paragraph_fresh]
  obtain d2 where d2: "add_code_paragraph fresh_code_document ''package eval'' = Inr d2"
    by auto
  have b: "map p_shd (body fresh_code_document) = [[''D3D3D3'']]"
    by (simp add: fresh_code_document_def code_block_def)
  from shading_on_every_code_paragraph [OF add_code_paragraph_fresh] n
  have one: "map s_shd (styles fresh_code_document) = map s_shd (styles Document) @ [None]"
    by simp
  from shading_on_every_code_paragraph [OF d2] y b
  have "map p_shd (body d2) = [[''D3D3D3''], [''D3D3D3'']] \<and> styles d2 = styles fresh_code_document"
    by auto
  with d2 one b show ?thesis
    by (simp add: add_code_paragraph_fresh)
qed

end
